theory Spec2Isabelle
  imports Main "HOL-Library.Word"
begin

section \<open>The circuit breaker's types (types.go)\<close>

subsection \<open>State and its name\<close>

text \<open>
  \<^verbatim>\<open>type State int\<close>, with the constants \<^verbatim>\<open>StateClosed = iota\<close>, \<^verbatim>\<open>StateHalfOpen\<close>,
  \<^verbatim>\<open>StateOpen\<close>. A \<^verbatim>\<open>State\<close> is any Go \<^verbatim>\<open>int\<close>, not only one of the three constants,
  so it is modelled as an integer. No arithmetic is done on it.
\<close>

type_synonym State = int

definition StateClosed :: State where
  "StateClosed = 0"

definition StateHalfOpen :: State where
  "StateHalfOpen = 1"

definition StateOpen :: State where
  "StateOpen = 2"

text \<open>
  The verb \<^verbatim>\<open>%d\<close> of \<^verbatim>\<open>fmt.Sprintf\<close> on a value of integer kind: the decimal digits of
  its magnitude, most significant first, after a minus sign when it is negative.
  (\<^verbatim>\<open>%d\<close> does not go through the \<^verbatim>\<open>String\<close> method of its operand.)
\<close>

definition digit_char :: "nat \<Rightarrow> char" where
  "digit_char d = ''0123456789'' ! d"

fun decimal_nat :: "nat \<Rightarrow> string" where
  "decimal_nat n =
     (if n < 10 then [digit_char n] else decimal_nat (n div 10) @ [digit_char (n mod 10)])"

declare decimal_nat.simps [simp del]

definition Sprintf_d :: "int \<Rightarrow> string" where
  "Sprintf_d i = (if i < 0 then CHR ''-'' # decimal_nat (nat (- i)) else decimal_nat (nat i))"

text \<open>
  Reading a string of decimal digits back as a number; it is used only to state that
  \<open>decimal_nat\<close> writes the number it is given.
\<close>

definition digit_value :: "char \<Rightarrow> nat" where
  "digit_value ch = of_char ch - 48"

definition decimal_value :: "string \<Rightarrow> nat" where
  "decimal_value ds = foldl (\<lambda>acc ch. 10 * acc + digit_value ch) 0 ds"

text \<open>\<^verbatim>\<open>func (s State) String() string\<close>: a switch over the three constants with a default.\<close>

definition State_String :: "State \<Rightarrow> string" where
  "State_String s =
     (if s = StateClosed then ''closed''
      else if s = StateHalfOpen then ''half-open''
      else if s = StateOpen then ''open''
      else ''unknown state: '' @ Sprintf_d s)"

subsection \<open>Counters\<close>

text \<open>The struct \<^verbatim>\<open>counts\<close>: five \<^verbatim>\<open>uint32\<close> fields, on which \<^verbatim>\<open>++\<close> wraps around.\<close>

type_synonym uint32 = "32 word"

record counts =
  requests :: uint32
  totalSuccesses :: uint32
  totalFailures :: uint32
  consecutiveSuccesses :: uint32
  consecutiveFailures :: uint32

text \<open>
  The four methods have a pointer receiver and update the struct in place; each is
  modelled as the function from the counters before the call to the counters after it.
\<close>

definition onRequest :: "counts \<Rightarrow> counts" where
  "onRequest c = c\<lparr>requests := requests c + 1\<rparr>"

definition onSuccess :: "counts \<Rightarrow> counts" where
  "onSuccess c =
     c\<lparr>totalSuccesses := totalSuccesses c + 1,
       consecutiveSuccesses := consecutiveSuccesses c + 1,
       consecutiveFailures := 0\<rparr>"

definition onFailure :: "counts \<Rightarrow> counts" where
  "onFailure c =
     c\<lparr>totalFailures := totalFailures c + 1,
       consecutiveFailures := consecutiveFailures c + 1,
       consecutiveSuccesses := 0\<rparr>"

definition reset :: "counts \<Rightarrow> counts" where
  "reset c =
     c\<lparr>requests := 0,
       totalSuccesses := 0,
       totalFailures := 0,
       consecutiveSuccesses := 0,
       consecutiveFailures := 0\<rparr>"

text \<open>The zero value \<^verbatim>\<open>counts{}\<close> of the struct, which a new breaker starts from.\<close>

definition zero_counts :: counts where
  "zero_counts =
     \<lparr>requests = 0, totalSuccesses = 0, totalFailures = 0,
      consecutiveSuccesses = 0, consecutiveFailures = 0\<rparr>"

text \<open>
  A sequence of calls of the four methods on one \<^verbatim>\<open>counts\<close> value, in the order in
  which they are made.
\<close>

datatype counts_op = OnRequest | OnSuccess | OnFailure | Reset

fun step :: "counts_op \<Rightarrow> counts \<Rightarrow> counts" where
  "step OnRequest c = onRequest c"
| "step OnSuccess c = onSuccess c"
| "step OnFailure c = onFailure c"
| "step Reset c = reset c"

definition run :: "counts_op list \<Rightarrow> counts \<Rightarrow> counts" where
  "run ops c = fold step ops c"

text \<open>
  Bookkeeping for a sequence of calls: how many requests were counted and how many
  outcomes were recorded since the last reset (a pair, both zero after a reset).
\<close>

fun tally :: "counts_op \<Rightarrow> nat \<times> nat \<Rightarrow> nat \<times> nat" where
  "tally OnRequest (a, r) = (Suc a, r)"
| "tally OnSuccess (a, r) = (a, Suc r)"
| "tally OnFailure (a, r) = (a, Suc r)"
| "tally Reset (a, r) = (0, 0)"

definition admitted :: "counts_op list \<Rightarrow> nat" where
  "admitted ops = fst (fold tally ops (0, 0))"

definition recorded :: "counts_op list \<Rightarrow> nat" where
  "recorded ops = snd (fold tally ops (0, 0))"

subsection \<open>Settings and their options\<close>

text \<open>
  \<^verbatim>\<open>time.Duration\<close> is an \<^verbatim>\<open>int64\<close> count of nanoseconds. This file does no arithmetic on
  durations at run time (the defaults are constants), so a duration is modelled as an
  integer; \<^verbatim>\<open>time.Second\<close> is \<^verbatim>\<open>1000000000\<close>.
\<close>

type_synonym Duration = int

definition Second :: Duration where
  "Second = 1000000000"

text \<open>
  An \<^verbatim>\<open>error\<close> is an interface value: \<^verbatim>\<open>nil\<close> (\<open>None\<close>) or an error with its message.
  The three function-valued fields may hold \<^verbatim>\<open>nil\<close> as any Go \<^verbatim>\<open>func\<close> value may, so each
  is an option. The callback \<^verbatim>\<open>onStateChange\<close> returns nothing and acts by its effect
  only, which is modelled as a change of the state \<open>'w\<close> of the world outside the breaker.
\<close>

type_synonym go_error = "string option"

record 'w settings =
  maxHalfOpenRequests :: uint32
  closedResetInterval :: Duration
  openTimeOut :: Duration
  readyToTrip :: "(counts \<Rightarrow> bool) option"
  onStateChange :: "(string \<Rightarrow> State \<Rightarrow> State \<Rightarrow> 'w \<Rightarrow> 'w) option"
  isSuccessful :: "(go_error \<Rightarrow> bool) option"

text \<open>
  \<^verbatim>\<open>type SettingsOption func(*settings)\<close>: an option updates the settings it is pointed
  to, so it is a function from the settings before to the settings after.
  \<^verbatim>\<open>apply\<close> calls the option.
\<close>

type_synonym 'w SettingsOption = "'w settings \<Rightarrow> 'w settings"

definition apply_option :: "'w SettingsOption \<Rightarrow> 'w settings \<Rightarrow> 'w settings" where
  "apply_option o' s = o' s"

definition WithMaxHalfOpenRequests :: "uint32 \<Rightarrow> 'w SettingsOption" where
  "WithMaxHalfOpenRequests max' = (\<lambda>s. s\<lparr>maxHalfOpenRequests := max'\<rparr>)"

definition WithClosedResetInterval :: "Duration \<Rightarrow> 'w SettingsOption" where
  "WithClosedResetInterval interval = (\<lambda>s. s\<lparr>closedResetInterval := interval\<rparr>)"

definition WithOpenTimeOut :: "Duration \<Rightarrow> 'w SettingsOption" where
  "WithOpenTimeOut timeout = (\<lambda>s. s\<lparr>openTimeOut := timeout\<rparr>)"

definition WithReadyToTrip :: "(counts \<Rightarrow> bool) option \<Rightarrow> 'w SettingsOption" where
  "WithReadyToTrip fn = (\<lambda>s. s\<lparr>readyToTrip := fn\<rparr>)"

definition WithOnStateChange ::
  "(string \<Rightarrow> State \<Rightarrow> State \<Rightarrow> 'w \<Rightarrow> 'w) option \<Rightarrow> 'w SettingsOption" where
  "WithOnStateChange fn = (\<lambda>s. s\<lparr>onStateChange := fn\<rparr>)"

definition WithIsSuccessful :: "(go_error \<Rightarrow> bool) option \<Rightarrow> 'w SettingsOption" where
  "WithIsSuccessful fn = (\<lambda>s. s\<lparr>isSuccessful := fn\<rparr>)"

definition defaultReadyToTrip :: "counts \<Rightarrow> bool" where
  "defaultReadyToTrip c = (consecutiveFailures c > 5)"

definition defaultIsSuccessful :: "go_error \<Rightarrow> bool" where
  "defaultIsSuccessful err = (err = None)"

definition defaultSettings :: "'w settings" where
  "defaultSettings =
     \<lparr>maxHalfOpenRequests = 10,
      closedResetInterval = 5 * Second,
      openTimeOut = 10 * Second,
      readyToTrip = Some defaultReadyToTrip,
      onStateChange = None,
      isSuccessful = Some defaultIsSuccessful\<rparr>"

subsection \<open>Validation of the settings\<close>

text \<open>
  \<^verbatim>\<open>settings.validate\<close> is one call into the package
  \<^verbatim>\<open>github.com/go-ozzo/ozzo-validation/v4\<close>, a dependency of the repository. The three
  functions of the package that the call uses are modelled as the package documents
  and implements them:

  \<^item> \<^verbatim>\<open>validation.Field(fieldPtr interface{}, rules ...Rule)\<close> stores its arguments. The
    first argument must be a pointer to a field of the struct being validated.
  \<^item> \<^verbatim>\<open>validation.Min(threshold)\<close> is the rule "greater than or equal to the threshold".
    Like most rules of the package it accepts an empty value (for an integer: zero)
    without comparing it; only \<^verbatim>\<open>Required\<close> rejects an empty value.
  \<^item> \<^verbatim>\<open>validation.ValidateStruct(structPtr, fields...)\<close> goes through the fields in
    order. For field number \<open>i\<close>, when \<^verbatim>\<open>reflect.ValueOf(fieldPtr).Kind()\<close> is not a pointer
    it returns at once the internal error \<^verbatim>\<open>ErrFieldPointer(i)\<close> ("field #i must be
    specified as a pointer"); otherwise it runs the rules on the value pointed to and
    files the first rule's error under the field's name. After the last field it returns
    the filed errors, or \<^verbatim>\<open>nil\<close> when there are none.
\<close>

datatype go_arg =
  Value int \<comment> \<open>an integer passed by value, such as \<^verbatim>\<open>s.closedResetInterval\<close>\<close>
| FieldPointer string int \<comment> \<open>the address of the named field, which holds the integer\<close>

datatype Rule = MinRule int

datatype rule_error = ErrMinGreaterEqualThanRequired int

record FieldRules =
  fieldPtr :: go_arg
  rules :: "Rule list"

datatype validation_error =
  ErrFieldPointer nat
| Errors "(string \<times> rule_error) list"

definition IsEmpty :: "int \<Rightarrow> bool" where
  "IsEmpty v = (v = 0)"

fun Rule_Validate :: "Rule \<Rightarrow> int \<Rightarrow> rule_error option" where
  "Rule_Validate (MinRule threshold) v =
     (if IsEmpty v then None
      else if v \<ge> threshold then None
      else Some (ErrMinGreaterEqualThanRequired threshold))"

fun Validate :: "int \<Rightarrow> Rule list \<Rightarrow> rule_error option" where
  "Validate v [] = None"
| "Validate v (r # rs) =
     (case Rule_Validate r v of Some err \<Rightarrow> Some err | None \<Rightarrow> Validate v rs)"

definition Field_rules :: "go_arg \<Rightarrow> Rule list \<Rightarrow> FieldRules" where
  "Field_rules p rs = \<lparr>fieldPtr = p, rules = rs\<rparr>"

fun validate_fields ::
  "nat \<Rightarrow> FieldRules list \<Rightarrow> (string \<times> rule_error) list \<Rightarrow> validation_error option" where
  "validate_fields i [] errs = (if errs \<noteq> [] then Some (Errors errs) else None)"
| "validate_fields i (fr # frs) errs =
     (case fieldPtr fr of
        Value v \<Rightarrow> Some (ErrFieldPointer i)
      | FieldPointer name v \<Rightarrow>
          (case Validate v (rules fr) of
             Some err \<Rightarrow> validate_fields (Suc i) frs (errs @ [(name, err)])
           | None \<Rightarrow> validate_fields (Suc i) frs errs))"

definition ValidateStruct :: "FieldRules list \<Rightarrow> validation_error option" where
  "ValidateStruct frs = validate_fields 0 frs []"

text \<open>
  \<^verbatim>\<open>func (s settings) validate() error\<close>. The receiver is a copy \<^verbatim>\<open>s\<close> of the settings and
  \<^verbatim>\<open>&s\<close> points to it; the two fields are handed to \<^verbatim>\<open>validation.Field\<close> as
  \<^verbatim>\<open>s.closedResetInterval\<close> and \<^verbatim>\<open>s.openTimeOut\<close>, that is by value, each with the rule
  \<^verbatim>\<open>validation.Min(time.Duration(1))\<close>. The result is \<open>None\<close> for \<^verbatim>\<open>nil\<close>.
\<close>

definition validate :: "'w settings \<Rightarrow> validation_error option" where
  "validate s =
     ValidateStruct
       [Field_rules (Value (closedResetInterval s)) [MinRule 1],
        Field_rules (Value (openTimeOut s)) [MinRule 1]]"


subsection \<open>Admission and recording\<close>

text \<open>
  Modelled from the spec: the breaker aggregate of section 3 of the specification, which
  \<^verbatim>\<open>types.go\<close> does not declare: the state, the counters and the expiry timestamp that
  ends the current Closed-reset window or Open-timeout window. Times are integers on the
  scale of \<^verbatim>\<open>time.Duration\<close> (nanoseconds).
\<close>

type_synonym Time = int

record breaker =
  state :: State
  counters :: counts
  expiry :: Time

text \<open>
  Modelled from the spec: construction, which is not in \<^verbatim>\<open>types.go\<close>. A breaker starts
  in Closed with zero counters; its first Closed-reset window ends \<^verbatim>\<open>closedResetInterval\<close>
  after the time of creation.
\<close>

definition newBreaker :: "'w settings \<Rightarrow> Time \<Rightarrow> breaker" where
  "newBreaker s now =
     \<lparr>state = StateClosed, counters = zero_counts, expiry = now + closedResetInterval s\<rparr>"

text \<open>
  Modelled from the spec: the probe budget of a HalfOpen window, which \<^verbatim>\<open>types.go\<close> only
  stores; section 3 treats a \<^verbatim>\<open>maxHalfOpenRequests\<close> of 0 as "exactly one".
\<close>

definition probeBudget :: "'w settings \<Rightarrow> uint32" where
  "probeBudget s = (if maxHalfOpenRequests s = 0 then 1 else maxHalfOpenRequests s)"

text \<open>
  Modelled from the spec: the calls of the two stored predicates, which \<^verbatim>\<open>types.go\<close> does
  not make; by section 9 a \<^verbatim>\<open>nil\<close> predicate stands for the default one.
\<close>

definition tripNow :: "'w settings \<Rightarrow> counts \<Rightarrow> bool" where
  "tripNow s c = (case readyToTrip s of Some f \<Rightarrow> f c | None \<Rightarrow> defaultReadyToTrip c)"

definition classify :: "'w settings \<Rightarrow> go_error \<Rightarrow> bool" where
  "classify s err = (case isSuccessful s of Some f \<Rightarrow> f err | None \<Rightarrow> defaultIsSuccessful err)"

text \<open>
  Modelled from the spec: the periodic reset of section 4.4, missing from \<^verbatim>\<open>types.go\<close>.
  While the breaker is Closed and the time has passed \<^verbatim>\<open>expiry\<close>, the counters are reset
  and the window is extended; it is evaluated at each Admit and Record.
\<close>

definition closedReset :: "'w settings \<Rightarrow> Time \<Rightarrow> breaker \<Rightarrow> breaker" where
  "closedReset s now b =
     (if state b = StateClosed \<and> expiry b < now
      then b\<lparr>counters := reset (counters b), expiry := now + closedResetInterval s\<rparr>
      else b)"

text \<open>
  Modelled from the spec: \<^verbatim>\<open>Gate.Admit\<close> of section 4.2, missing from \<^verbatim>\<open>types.go\<close>. The
  result is the breaker after the call and whether the call is admitted. Closed always
  admits. Open rejects and changes nothing until the time has reached \<^verbatim>\<open>expiry\<close>; from
  then on the breaker moves to HalfOpen with its counters reset and the HalfOpen rule
  decides. HalfOpen admits while fewer requests than the probe budget were admitted in
  the window. An admitted call increments \<^verbatim>\<open>requests\<close>. (The observer \<^verbatim>\<open>onStateChange\<close>
  never affects a decision and is left out.)
\<close>

definition Admit :: "'w settings \<Rightarrow> Time \<Rightarrow> breaker \<Rightarrow> breaker \<times> bool" where
  "Admit s now b0 =
     (let b = closedReset s now b0 in
      if state b = StateClosed then (b\<lparr>counters := onRequest (counters b)\<rparr>, True)
      else if state b = StateOpen \<and> now < expiry b then (b, False)
      else
        (let h = (if state b = StateOpen
                  then b\<lparr>state := StateHalfOpen, counters := reset (counters b)\<rparr>
                  else b)
         in if requests (counters h) < probeBudget s
            then (h\<lparr>counters := onRequest (counters h)\<rparr>, True)
            else (h, False)))"

text \<open>
  Modelled from the spec: \<^verbatim>\<open>Gate.Record\<close> of section 4.3 with the transitions of section
  4.1, missing from \<^verbatim>\<open>types.go\<close>. A success is counted by \<^verbatim>\<open>onSuccess\<close>; in HalfOpen, once
  the probe budget has been consumed by successes, the breaker closes, with counters reset
  and \<^verbatim>\<open>expiry\<close> at now + \<^verbatim>\<open>closedResetInterval\<close>. A failure is counted by \<^verbatim>\<open>onFailure\<close>; in
  HalfOpen the breaker opens at once, with counters reset and \<^verbatim>\<open>expiry\<close> at now +
  \<^verbatim>\<open>openTimeOut\<close>; in Closed it opens when \<^verbatim>\<open>readyToTrip\<close> holds of the counters, the Open
  window ending \<^verbatim>\<open>openTimeOut\<close> later.
\<close>

definition Record :: "'w settings \<Rightarrow> Time \<Rightarrow> bool \<Rightarrow> breaker \<Rightarrow> breaker" where
  "Record s now ok b0 =
     (let b = closedReset s now b0 in
      if ok then
        (let b1 = b\<lparr>counters := onSuccess (counters b)\<rparr> in
         if state b1 = StateHalfOpen \<and> probeBudget s \<le> consecutiveSuccesses (counters b1)
         then b1\<lparr>state := StateClosed, counters := reset (counters b1),
                 expiry := now + closedResetInterval s\<rparr>
         else b1)
      else
        (let b1 = b\<lparr>counters := onFailure (counters b)\<rparr> in
         if state b1 = StateHalfOpen
         then b1\<lparr>state := StateOpen, counters := reset (counters b1),
                 expiry := now + openTimeOut s\<rparr>
         else if state b1 = StateClosed \<and> tripNow s (counters b1)
         then b1\<lparr>state := StateOpen, expiry := now + openTimeOut s\<rparr>
         else b1))"

text \<open>
  Modelled from the spec: \<^verbatim>\<open>Execute\<close> of section 6, missing from \<^verbatim>\<open>types.go\<close>, for an
  operation that returns the error \<open>err\<close>: Admit; when rejected, nothing more; otherwise
  the outcome is classified by \<^verbatim>\<open>isSuccessful\<close> and recorded. The result is the breaker
  after the call and whether the call was admitted.
\<close>

definition Execute :: "'w settings \<Rightarrow> Time \<Rightarrow> go_error \<Rightarrow> breaker \<Rightarrow> breaker \<times> bool" where
  "Execute s now err b =
     (case Admit s now b of
        (b', True) \<Rightarrow> (Record s now (classify s err) b', True)
      | (b', False) \<Rightarrow> (b', False))"

text \<open>
  Modelled from the spec: a caller of \<^verbatim>\<open>Execute\<close> (no caller is in \<^verbatim>\<open>types.go\<close>) that makes
  one call at each of the given times, in order, each operation returning the error
  \<open>err\<close>.
\<close>

definition calls :: "'w settings \<Rightarrow> go_error \<Rightarrow> Time list \<Rightarrow> breaker \<Rightarrow> breaker" where
  "calls s err ts b = fold (\<lambda>now b'. fst (Execute s now err b')) ts b"

section \<open>Properties\<close>

subsection \<open>State names\<close>

lemma digit_char_cases:
  assumes "(d::nat) < 10"
  shows "d \<in> {0, 1, 2, 3, 4, 5, 6, 7, 8, 9}"
  using assms by auto

lemma digit_char_in_digits: "d < 10 \<Longrightarrow> digit_char d \<in> set ''0123456789''"
  using digit_char_cases [of d] by (auto simp: digit_char_def)

lemma digit_char_zero: "d < 10 \<Longrightarrow> digit_char d = CHR ''0'' \<Longrightarrow> d = 0"
  using digit_char_cases [of d] by (auto simp: digit_char_def)

lemma decimal_nat_nonempty: "decimal_nat n \<noteq> []"
  by (subst decimal_nat.simps) simp

lemma decimal_nat_digits: "set (decimal_nat n) \<subseteq> set ''0123456789''"
proof (induction n rule: decimal_nat.induct)
  case (1 n)
  show ?case
  proof (cases "n < 10")
    case True
    then show ?thesis
      using digit_char_in_digits [of n] by (subst decimal_nat.simps) simp
  next
    case False
    have "n mod 10 < 10" by simp
    from digit_char_in_digits [OF this] 1 [OF False] False show ?thesis
      by (subst decimal_nat.simps) simp
  qed
qed

lemma decimal_nat_leading_zero: "hd (decimal_nat n) = CHR ''0'' \<Longrightarrow> n = 0"
proof (induction n rule: decimal_nat.induct)
  case (1 n)
  show ?case
  proof (cases "n < 10")
    case True
    have "decimal_nat n = [digit_char n]"
      using True by (subst decimal_nat.simps) simp
    with "1.prems" True show ?thesis
      by (simp add: digit_char_zero)
  next
    case False
    have "decimal_nat n = decimal_nat (n div 10) @ [digit_char (n mod 10)]"
      using False by (subst decimal_nat.simps) simp
    with "1.prems" have "hd (decimal_nat (n div 10)) = CHR ''0''"
      by (simp add: decimal_nat_nonempty)
    from "1.IH" [OF False this] False show ?thesis
      by simp
  qed
qed

lemma decimal_nat_0: "decimal_nat 0 = ''0''"
  by (subst decimal_nat.simps) (simp add: digit_char_def)

lemma digit_value_digit_char: "d < 10 \<Longrightarrow> digit_value (digit_char d) = d"
  using digit_char_cases [of d] by (auto simp: digit_char_def digit_value_def)

lemma decimal_value_decimal_nat: "decimal_value (decimal_nat n) = n"
proof (induction n rule: decimal_nat.induct)
  case (1 n)
  show ?case
  proof (cases "n < 10")
    case True
    then show ?thesis
      by (subst decimal_nat.simps) (simp add: decimal_value_def digit_value_digit_char)
  next
    case False
    have "decimal_value (decimal_nat n)
          = 10 * decimal_value (decimal_nat (n div 10)) + digit_value (digit_char (n mod 10))"
      using False by (subst decimal_nat.simps) (simp add: decimal_value_def)
    also have "\<dots> = 10 * (n div 10) + n mod 10"
      using 1 [OF False] by (simp add: digit_value_digit_char)
    finally show ?thesis by simp
  qed
qed

lemma decimal_nat_value:
  "foldl (\<lambda>acc ch. 10 * acc + (of_char ch - 48)) (0::nat) (decimal_nat n) = n"
  using decimal_value_decimal_nat [of n] by (simp add: decimal_value_def digit_value_def)

lemma Sprintf_d_negative: "Sprintf_d (- 17) = ''-17''"
  by (simp add: Sprintf_d_def decimal_nat.simps digit_char_def)

text \<open>
  C8. The names of the three states, as \<^verbatim>\<open>State.String\<close> returns them, are exactly
  \<^verbatim>\<open>"closed"\<close> for \<^verbatim>\<open>StateClosed\<close> (0), \<^verbatim>\<open>"half-open"\<close> for \<^verbatim>\<open>StateHalfOpen\<close> (1) and
  \<^verbatim>\<open>"open"\<close> for \<^verbatim>\<open>StateOpen\<close> (2).
\<close>

theorem State_String_names:
  "StateClosed = 0 \<and> StateHalfOpen = 1 \<and> StateOpen = 2
   \<and> State_String StateClosed = ''closed''
   \<and> State_String StateHalfOpen = ''half-open''
   \<and> State_String StateOpen = ''open''"
  by (simp add: State_String_def StateClosed_def StateHalfOpen_def StateOpen_def)

text \<open>
  C9. For every \<^verbatim>\<open>State\<close> value other than the three constants, \<^verbatim>\<open>String\<close> returns (it
  has no failing branch) the text \<^verbatim>\<open>"unknown state: "\<close> followed by the value in decimal:
  a minus sign exactly when the value is negative, then a nonempty string of the digits
  0 to 9 with no leading zero, which read in base ten is the magnitude of the value. For
  instance \<^verbatim>\<open>State(3).String()\<close> is \<^verbatim>\<open>"unknown state: 3"\<close>.
\<close>

theorem State_String_unknown:
  assumes "s \<noteq> StateClosed" and "s \<noteq> StateHalfOpen" and "s \<noteq> StateOpen"
  shows "\<exists>ds. State_String s = ''unknown state: '' @ (if s < 0 then ''-'' else []) @ ds
           \<and> ds \<noteq> [] \<and> set ds \<subseteq> set ''0123456789''
           \<and> (hd ds = CHR ''0'' \<longrightarrow> ds = ''0'')
           \<and> foldl (\<lambda>acc ch. 10 * acc + (of_char ch - 48)) (0::nat) ds = nat \<bar>s\<bar>"
proof -
  define ds where "ds = decimal_nat (nat \<bar>s\<bar>)"
  have str: "State_String s = ''unknown state: '' @ (if s < 0 then ''-'' else []) @ ds"
    using assms by (simp add: State_String_def Sprintf_d_def ds_def)
  have ne: "ds \<noteq> []"
    by (simp add: ds_def decimal_nat_nonempty)
  have dig: "set ds \<subseteq> set ''0123456789''"
    unfolding ds_def by (rule decimal_nat_digits)
  have lead: "hd ds = CHR ''0'' \<longrightarrow> ds = ''0''"
  proof
    assume "hd ds = CHR ''0''"
    then have "nat \<bar>s\<bar> = 0"
      unfolding ds_def by (rule decimal_nat_leading_zero)
    then show "ds = ''0''"
      by (simp add: ds_def decimal_nat_0)
  qed
  have val: "foldl (\<lambda>acc ch. 10 * acc + (of_char ch - 48)) (0::nat) ds = nat \<bar>s\<bar>"
    unfolding ds_def by (rule decimal_nat_value)
  from str ne dig lead val show ?thesis
    by blast
qed

text \<open>At \<^verbatim>\<open>State(3)\<close> the digits read 3, and the text is \<^verbatim>\<open>"unknown state: 3"\<close>.\<close>

theorem State_String_unknown_witness:
  "State_String 3 = ''unknown state: 3''
   \<and> (\<exists>ds. State_String 3 = ''unknown state: '' @ ds \<and> ds \<noteq> []
        \<and> foldl (\<lambda>acc ch. 10 * acc + (of_char ch - 48)) (0::nat) ds = 3)"
proof -
  have a: "3 \<noteq> StateClosed" and b: "3 \<noteq> StateHalfOpen" and c: "3 \<noteq> StateOpen"
    by (simp_all add: StateClosed_def StateHalfOpen_def StateOpen_def)
  have e: "State_String 3 = ''unknown state: 3''"
    by (simp add: State_String_def StateClosed_def StateHalfOpen_def StateOpen_def
        Sprintf_d_def decimal_nat.simps digit_char_def)
  from State_String_unknown [OF a b c]
  obtain ds where "State_String 3 = ''unknown state: '' @ (if (3::int) < 0 then ''-'' else []) @ ds"
    and "ds \<noteq> []"
    and "foldl (\<lambda>acc ch. 10 * acc + (of_char ch - 48)) (0::nat) ds = nat \<bar>3\<bar>"
    by blast
  then have "State_String 3 = ''unknown state: '' @ ds \<and> ds \<noteq> []
        \<and> foldl (\<lambda>acc ch. 10 * acc + (of_char ch - 48)) (0::nat) ds = 3"
    by simp
  then have "\<exists>ds. State_String 3 = ''unknown state: '' @ ds \<and> ds \<noteq> []
        \<and> foldl (\<lambda>acc ch. 10 * acc + (of_char ch - 48)) (0::nat) ds = 3"
    by (rule exI)
  with e show ?thesis
    by (rule conjI)
qed

subsection \<open>Counters\<close>

text \<open>
  C4. For every counters value, recording a success adds one to \<^verbatim>\<open>totalSuccesses\<close> and to
  \<^verbatim>\<open>consecutiveSuccesses\<close>, sets \<^verbatim>\<open>consecutiveFailures\<close> to zero and leaves \<^verbatim>\<open>requests\<close>
  and \<^verbatim>\<open>totalFailures\<close> as they were; recording a failure adds one to \<^verbatim>\<open>totalFailures\<close>
  and to \<^verbatim>\<open>consecutiveFailures\<close>, sets \<^verbatim>\<open>consecutiveSuccesses\<close> to zero and leaves
  \<^verbatim>\<open>requests\<close> and \<^verbatim>\<open>totalSuccesses\<close> as they were. (The additions are those of
  \<^verbatim>\<open>uint32\<close>.)
\<close>

theorem onSuccess_onFailure_effect:
  "totalSuccesses (onSuccess c) = totalSuccesses c + 1
   \<and> consecutiveSuccesses (onSuccess c) = consecutiveSuccesses c + 1
   \<and> consecutiveFailures (onSuccess c) = 0
   \<and> requests (onSuccess c) = requests c
   \<and> totalFailures (onSuccess c) = totalFailures c
   \<and> totalFailures (onFailure c) = totalFailures c + 1
   \<and> consecutiveFailures (onFailure c) = consecutiveFailures c + 1
   \<and> consecutiveSuccesses (onFailure c) = 0
   \<and> requests (onFailure c) = requests c
   \<and> totalSuccesses (onFailure c) = totalSuccesses c"
  by (simp add: onSuccess_def onFailure_def)

text \<open>
  C10. The five counters are 32-bit unsigned integers, and each increment made by
  \<^verbatim>\<open>onRequest\<close>, \<^verbatim>\<open>onSuccess\<close> and \<^verbatim>\<open>onFailure\<close> is an addition modulo \<open>2\<^sup>3\<^sup>2\<close>: a counter
  that holds \<open>2\<^sup>3\<^sup>2 - 1 = 4294967295\<close> is 0 after it.
\<close>

theorem counter_increment_wraps:
  "unat (requests (onRequest c)) = (unat (requests c) + 1) mod 2 ^ 32
   \<and> unat (totalSuccesses (onSuccess c)) = (unat (totalSuccesses c) + 1) mod 2 ^ 32
   \<and> unat (consecutiveSuccesses (onSuccess c)) = (unat (consecutiveSuccesses c) + 1) mod 2 ^ 32
   \<and> unat (totalFailures (onFailure c)) = (unat (totalFailures c) + 1) mod 2 ^ 32
   \<and> unat (consecutiveFailures (onFailure c)) = (unat (consecutiveFailures c) + 1) mod 2 ^ 32
   \<and> requests (onRequest (c\<lparr>requests := 4294967295\<rparr>)) = 0
   \<and> totalSuccesses (onSuccess (c\<lparr>totalSuccesses := 4294967295\<rparr>)) = 0
   \<and> consecutiveSuccesses (onSuccess (c\<lparr>consecutiveSuccesses := 4294967295\<rparr>)) = 0
   \<and> totalFailures (onFailure (c\<lparr>totalFailures := 4294967295\<rparr>)) = 0
   \<and> consecutiveFailures (onFailure (c\<lparr>consecutiveFailures := 4294967295\<rparr>)) = 0
   \<and> unat (4294967295 :: uint32) = 2 ^ 32 - 1"
  by (simp add: onRequest_def onSuccess_def onFailure_def unat_word_ariths)


lemma onFailure_onRequest_streak:
  "consecutiveFailures (((onFailure \<circ> onRequest) ^^ n) c) = consecutiveFailures c + of_nat n"
  by (induction n) (simp_all add: onFailure_def onRequest_def)

lemma unat_of_nat_uint32: "n < 2 ^ 32 \<Longrightarrow> unat (of_nat n :: uint32) = n"
  by (simp add: unat_of_nat)

lemma step_streak:
  "consecutiveSuccesses c = 0 \<or> consecutiveFailures c = 0 \<Longrightarrow>
   consecutiveSuccesses (step x c) = 0 \<or> consecutiveFailures (step x c) = 0"
  by (cases x) (auto simp: onRequest_def onSuccess_def onFailure_def reset_def)

lemma run_streak:
  "consecutiveSuccesses c = 0 \<or> consecutiveFailures c = 0 \<Longrightarrow>
   consecutiveSuccesses (run ops c) = 0 \<or> consecutiveFailures (run ops c) = 0"
  unfolding run_def
proof (induction ops arbitrary: c)
  case Nil
  then show ?case by simp
next
  case (Cons x xs)
  from Cons.IH [OF step_streak [OF Cons.prems, of x]] show ?case
    by simp
qed

lemma step_balance:
  assumes "totalSuccesses c + totalFailures c + of_nat a = requests c + of_nat r"
  shows "totalSuccesses (step x c) + totalFailures (step x c) + of_nat (fst (tally x (a, r)))
         = requests (step x c) + of_nat (snd (tally x (a, r)))"
proof (cases x)
  case OnRequest
  have "totalSuccesses c + totalFailures c + (1 + of_nat a)
        = (totalSuccesses c + totalFailures c + of_nat a) + 1"
    by (simp add: add.assoc add.commute)
  also have "\<dots> = requests c + of_nat r + 1"
    by (simp only: assms)
  also have "\<dots> = requests c + 1 + of_nat r"
    by (simp add: add.assoc add.commute)
  finally show ?thesis
    using OnRequest by (simp add: onRequest_def)
next
  case OnSuccess
  have "totalSuccesses c + 1 + totalFailures c + of_nat a
        = (totalSuccesses c + totalFailures c + of_nat a) + 1"
    by (simp add: add.assoc add.commute)
  also have "\<dots> = requests c + of_nat r + 1"
    by (simp only: assms)
  also have "\<dots> = requests c + (1 + of_nat r)"
    by (simp add: add.assoc add.commute)
  finally show ?thesis
    using OnSuccess by (simp add: onSuccess_def)
next
  case OnFailure
  have "totalSuccesses c + (totalFailures c + 1) + of_nat a
        = (totalSuccesses c + totalFailures c + of_nat a) + 1"
    by (simp add: add.assoc add.commute)
  also have "\<dots> = requests c + of_nat r + 1"
    by (simp only: assms)
  also have "\<dots> = requests c + (1 + of_nat r)"
    by (simp add: add.assoc add.commute)
  finally show ?thesis
    using OnFailure by (simp add: onFailure_def)
next
  case Reset
  then show ?thesis
    by (simp add: reset_def)
qed

lemma fold_step_balance:
  "totalSuccesses c + totalFailures c + of_nat a = requests c + of_nat r \<Longrightarrow>
   totalSuccesses (fold step ops c) + totalFailures (fold step ops c)
     + of_nat (fst (fold tally ops (a, r)))
   = requests (fold step ops c) + of_nat (snd (fold tally ops (a, r)))"
proof (induction ops arbitrary: c a r)
  case Nil
  then show ?case by simp
next
  case (Cons x xs)
  obtain a' r' where t: "tally x (a, r) = (a', r')"
    by (cases "tally x (a, r)")
  have "totalSuccesses (step x c) + totalFailures (step x c) + of_nat a'
        = requests (step x c) + of_nat r'"
    using step_balance [OF Cons.prems, of x] t by simp
  from Cons.IH [OF this] show ?case
    using t by simp
qed

lemma run_Reset_last: "run (ops @ [Reset]) c = zero_counts"
  by (simp add: run_def reset_def zero_counts_def)

lemma reset_zero_counts: "reset c = zero_counts"
  by (simp add: reset_def zero_counts_def)

text \<open>
  C3, as the code has it. After every sequence of calls of \<^verbatim>\<open>onRequest\<close>, \<^verbatim>\<open>onSuccess\<close>,
  \<^verbatim>\<open>onFailure\<close> and \<^verbatim>\<open>reset\<close> on counters that start at zero, at most one of
  \<^verbatim>\<open>consecutiveSuccesses\<close> and \<^verbatim>\<open>consecutiveFailures\<close> is nonzero, and both are zero right
  after a \<^verbatim>\<open>reset\<close>. The totals and \<^verbatim>\<open>requests\<close> are tied by
  \<^verbatim>\<open>totalSuccesses + totalFailures + a == requests + r\<close> (in \<^verbatim>\<open>uint32\<close> arithmetic), where
  \<open>a\<close> requests were counted and \<open>r\<close> outcomes recorded since the last reset; so
  \<^verbatim>\<open>totalSuccesses + totalFailures == requests\<close> holds whenever as many outcomes have been
  recorded as requests were counted since the last reset, and not while a counted request
  still waits for its outcome.
\<close>

theorem counts_invariant_balance:
  "(consecutiveSuccesses (run ops zero_counts) = 0
      \<or> consecutiveFailures (run ops zero_counts) = 0)
   \<and> consecutiveSuccesses (run (ops @ [Reset]) zero_counts) = 0
   \<and> consecutiveFailures (run (ops @ [Reset]) zero_counts) = 0
   \<and> totalSuccesses (run ops zero_counts) + totalFailures (run ops zero_counts)
        + of_nat (admitted ops)
      = requests (run ops zero_counts) + of_nat (recorded ops)
   \<and> (admitted ops = recorded ops \<longrightarrow>
        totalSuccesses (run ops zero_counts) + totalFailures (run ops zero_counts)
        = requests (run ops zero_counts))"
proof -
  have streak: "consecutiveSuccesses (run ops zero_counts) = 0
      \<or> consecutiveFailures (run ops zero_counts) = 0"
    by (rule run_streak) (simp add: zero_counts_def)
  have bal: "totalSuccesses (run ops zero_counts) + totalFailures (run ops zero_counts)
        + of_nat (admitted ops)
      = requests (run ops zero_counts) + of_nat (recorded ops)"
    unfolding run_def admitted_def recorded_def
    by (rule fold_step_balance) (simp add: zero_counts_def)
  have paired: "admitted ops = recorded ops \<longrightarrow>
        totalSuccesses (run ops zero_counts) + totalFailures (run ops zero_counts)
        = requests (run ops zero_counts)"
  proof
    assume "admitted ops = recorded ops"
    with bal have "totalSuccesses (run ops zero_counts) + totalFailures (run ops zero_counts)
        + of_nat (recorded ops) = requests (run ops zero_counts) + of_nat (recorded ops)"
      by simp
    then show "totalSuccesses (run ops zero_counts) + totalFailures (run ops zero_counts)
        = requests (run ops zero_counts)"
      by (simp only: add_right_cancel)
  qed
  show ?thesis
    using streak bal paired by (simp add: run_Reset_last zero_counts_def)
qed

text \<open>
  At the calls \<^verbatim>\<open>onRequest, onRequest, onSuccess, onFailure\<close> two requests were counted
  and two outcomes recorded, and the totals add up to \<^verbatim>\<open>requests\<close>, which is 2.
\<close>

theorem counts_invariant_balance_witness:
  "admitted [OnRequest, OnRequest, OnSuccess, OnFailure]
     = recorded [OnRequest, OnRequest, OnSuccess, OnFailure]
   \<and> totalSuccesses (run [OnRequest, OnRequest, OnSuccess, OnFailure] zero_counts)
     + totalFailures (run [OnRequest, OnRequest, OnSuccess, OnFailure] zero_counts)
     = requests (run [OnRequest, OnRequest, OnSuccess, OnFailure] zero_counts)
   \<and> requests (run [OnRequest, OnRequest, OnSuccess, OnFailure] zero_counts) = 2"
proof -
  have a: "admitted [OnRequest, OnRequest, OnSuccess, OnFailure]
      = recorded [OnRequest, OnRequest, OnSuccess, OnFailure]"
    by (simp add: admitted_def recorded_def)
  have r: "requests (run [OnRequest, OnRequest, OnSuccess, OnFailure] zero_counts) = 2"
    by (simp add: run_def onRequest_def onSuccess_def onFailure_def zero_counts_def)
  show ?thesis
    using a r counts_invariant_balance [of "[OnRequest, OnRequest, OnSuccess, OnFailure]"]
    by simp
qed

text \<open>
  The equation \<^verbatim>\<open>totalSuccesses + totalFailures == requests\<close> does not hold after every
  sequence of calls: after one \<^verbatim>\<open>onRequest\<close> on zero counters, \<^verbatim>\<open>requests\<close> is 1 and both
  totals are 0.
\<close>

theorem counts_totals_differ_after_onRequest:
  "requests (run [OnRequest] zero_counts) = 1
   \<and> totalSuccesses (run [OnRequest] zero_counts) + totalFailures (run [OnRequest] zero_counts)
      \<noteq> requests (run [OnRequest] zero_counts)"
  by (simp add: run_def onRequest_def zero_counts_def)


subsection \<open>Default settings and options\<close>

text \<open>
  C5. \<^verbatim>\<open>defaultSettings\<close>, the settings in force when no option is applied, holds the
  documented defaults: \<^verbatim>\<open>maxHalfOpenRequests\<close> is 10, \<^verbatim>\<open>closedResetInterval\<close> is 5 seconds,
  \<^verbatim>\<open>openTimeOut\<close> is 10 seconds (a second being 1000000000 nanoseconds), \<^verbatim>\<open>readyToTrip\<close>
  is true exactly when \<^verbatim>\<open>consecutiveFailures > 5\<close>, \<^verbatim>\<open>isSuccessful\<close> is true exactly
  when the error is \<^verbatim>\<open>nil\<close>, and \<^verbatim>\<open>onStateChange\<close> is \<^verbatim>\<open>nil\<close>.
\<close>

theorem defaultSettings_values:
  "maxHalfOpenRequests (defaultSettings :: 'w settings) = 10
   \<and> closedResetInterval (defaultSettings :: 'w settings) = 5 * Second
   \<and> openTimeOut (defaultSettings :: 'w settings) = 10 * Second
   \<and> Second = 1000000000
   \<and> readyToTrip (defaultSettings :: 'w settings) = Some defaultReadyToTrip
   \<and> (\<forall>c. defaultReadyToTrip c \<longleftrightarrow> consecutiveFailures c > 5)
   \<and> isSuccessful (defaultSettings :: 'w settings) = Some defaultIsSuccessful
   \<and> (\<forall>err. defaultIsSuccessful err \<longleftrightarrow> err = None)
   \<and> onStateChange (defaultSettings :: 'w settings) = None"
  by (simp add: defaultSettings_def defaultReadyToTrip_def defaultIsSuccessful_def Second_def)

lemma defaultReadyToTrip_after_failures:
  assumes "consecutiveFailures c = 0" and "n < 2 ^ 32"
  shows "defaultReadyToTrip (((onFailure \<circ> onRequest) ^^ n) c) \<longleftrightarrow> 5 < n"
proof -
  have "consecutiveFailures (((onFailure \<circ> onRequest) ^^ n) c) = of_nat n"
    using assms(1) by (simp add: onFailure_onRequest_streak)
  moreover have "(5 < (of_nat n :: uint32)) \<longleftrightarrow> 5 < n"
    using assms(2) by (simp add: word_less_nat_alt unat_of_nat_uint32)
  ultimately show ?thesis
    by (simp add: defaultReadyToTrip_def)
qed

lemma Execute_failure_Closed:
  assumes "state b = StateClosed" and "now \<le> expiry b"
  shows "Execute (defaultSettings :: 'w settings) now (Some e) b =
     (if 5 < consecutiveFailures (counters b) + 1
      then b\<lparr>state := StateOpen, counters := onFailure (onRequest (counters b)),
              expiry := now + 10 * Second\<rparr>
      else b\<lparr>counters := onFailure (onRequest (counters b))\<rparr>, True)"
  using assms
  by (simp add: Execute_def Admit_def Record_def closedReset_def classify_def tripNow_def
      defaultSettings_def defaultIsSuccessful_def defaultReadyToTrip_def
      onFailure_def onRequest_def StateClosed_def StateHalfOpen_def StateOpen_def Let_def)

lemma Execute_Open:
  assumes "state b = StateOpen" and "now < expiry b"
  shows "Execute s now err b = (b, False)"
  using assms
  by (simp add: Execute_def Admit_def closedReset_def StateOpen_def StateClosed_def Let_def)

lemma calls_Open:
  assumes "state b = StateOpen" and "\<forall>t\<in>set ts. t < expiry b"
  shows "calls s err ts b = b"
  using assms unfolding calls_def
  by (induction ts) (simp_all add: Execute_Open)

lemma word_small_less: "k < 5 \<Longrightarrow> \<not> 5 < (of_nat k :: uint32) + 1"
proof -
  assume "k < 5"
  then have "k \<in> {0, 1, 2, 3, 4}" by auto
  then show ?thesis by auto
qed

lemma calls_failure_Closed:
  assumes "state b = StateClosed"
    and "consecutiveFailures (counters b) = of_nat k" and "k \<le> 5"
    and "\<forall>t\<in>set ts. t0 \<le> t \<and> t \<le> expiry b"
    and "expiry b < t0 + 10 * Second"
  shows "state (calls (defaultSettings :: 'w settings) (Some e) ts b)
           = (if 5 < k + length ts then StateOpen else StateClosed)
         \<and> (if 5 < k + length ts
             then t0 + 10 * Second \<le> expiry (calls (defaultSettings :: 'w settings) (Some e) ts b)
             else expiry (calls (defaultSettings :: 'w settings) (Some e) ts b) = expiry b)"
  using assms
proof (induction ts arbitrary: b k)
  case Nil
  then show ?case
    by (simp add: calls_def StateOpen_def StateClosed_def)
next
  case (Cons t ts)
  have t: "t0 \<le> t" "t \<le> expiry b"
    using Cons.prems(4) by simp_all
  have step: "calls (defaultSettings :: 'w settings) (Some e) (t # ts) b
      = calls (defaultSettings :: 'w settings) (Some e) ts (fst (Execute (defaultSettings :: 'w settings) t (Some e) b))"
    by (simp add: calls_def)
  show ?case
  proof (cases "k < 5")
    case True
    define b' where "b' = b\<lparr>counters := onFailure (onRequest (counters b))\<rparr>"
    have ex: "fst (Execute (defaultSettings :: 'w settings) t (Some e) b) = b'"
      using Execute_failure_Closed [where 'w = 'w, OF Cons.prems(1) t(2), of e] word_small_less [OF True]
      by (simp add: Cons.prems(2) b'_def)
    have "state b' = StateClosed"
      using Cons.prems(1) by (simp add: b'_def)
    moreover have "consecutiveFailures (counters b') = of_nat (Suc k)"
      using Cons.prems(2) by (simp add: b'_def onFailure_def onRequest_def)
    moreover have "Suc k \<le> 5"
      using True by simp
    moreover have "\<forall>t\<in>set ts. t0 \<le> t \<and> t \<le> expiry b'"
      using Cons.prems(4) by (simp add: b'_def)
    moreover have "expiry b' < t0 + 10 * Second"
      using Cons.prems(5) by (simp add: b'_def)
    ultimately have "state (calls (defaultSettings :: 'w settings) (Some e) ts b')
           = (if 5 < Suc k + length ts then StateOpen else StateClosed)
         \<and> (if 5 < Suc k + length ts
             then t0 + 10 * Second \<le> expiry (calls (defaultSettings :: 'w settings) (Some e) ts b')
             else expiry (calls (defaultSettings :: 'w settings) (Some e) ts b') = expiry b')"
      by (rule Cons.IH)
    moreover have "expiry b' = expiry b"
      by (simp add: b'_def)
    ultimately show ?thesis
      by (simp add: step ex)
  next
    case False
    then have k: "k = 5"
      using Cons.prems(3) by simp
    define b' where "b' = b\<lparr>state := StateOpen, counters := onFailure (onRequest (counters b)),
              expiry := t + 10 * Second\<rparr>"
    have ex: "fst (Execute (defaultSettings :: 'w settings) t (Some e) b) = b'"
      using Execute_failure_Closed [where 'w = 'w, OF Cons.prems(1) t(2), of e]
      by (simp add: Cons.prems(2) k b'_def)
    have "\<forall>u\<in>set ts. u < expiry b'"
      using Cons.prems(4,5) t by (auto simp: b'_def)
    then have "calls (defaultSettings :: 'w settings) (Some e) ts b' = b'"
      by (intro calls_Open) (simp_all add: b'_def)
    moreover have "state b' = StateOpen" and "expiry b' = t + 10 * Second"
      by (simp_all add: b'_def)
    ultimately show ?thesis
      using t by (simp add: step ex k)
  qed
qed

text \<open>
  C1, as the code has it. Under the default settings, take a new breaker and let every
  call be made within its first Closed-reset window of 5 seconds. After \<open>n\<close> calls in a
  row that each end in a failure, the trip condition \<^verbatim>\<open>readyToTrip\<close> holds of the counters
  exactly when \<open>n > 5\<close> (\<open>n\<close> below \<open>2\<^sup>3\<^sup>2\<close>), and accordingly the state reads Open and the
  next Admit rejects exactly when \<open>n > 5\<close>: after exactly 5 consecutive failures the state
  still reads Closed and the 6th Admit is admitted; after the 6th failure the state reads
  Open and the 7th Admit rejects, leaving the state Open.
\<close>

theorem default_trip_after_more_than_five:
  assumes "\<forall>t\<in>set ts. t0 \<le> t \<and> t \<le> t0 + 5 * Second"
    and "t0 \<le> now \<and> now \<le> t0 + 5 * Second"
    and "length ts < 2 ^ 32"
  shows "readyToTrip (defaultSettings :: 'w settings) = Some defaultReadyToTrip
     \<and> (defaultReadyToTrip (((onFailure \<circ> onRequest) ^^ length ts) zero_counts)
          \<longleftrightarrow> 5 < length ts)
     \<and> state (calls (defaultSettings :: 'w settings) (Some e) ts
          (newBreaker (defaultSettings :: 'w settings) t0))
        = (if 5 < length ts then StateOpen else StateClosed)
     \<and> (snd (Admit (defaultSettings :: 'w settings) now
            (calls (defaultSettings :: 'w settings) (Some e) ts
              (newBreaker (defaultSettings :: 'w settings) t0)))
          \<longleftrightarrow> length ts \<le> 5)
     \<and> state (fst (Admit (defaultSettings :: 'w settings) now
            (calls (defaultSettings :: 'w settings) (Some e) ts
              (newBreaker (defaultSettings :: 'w settings) t0))))
        = (if 5 < length ts then StateOpen else StateClosed)"
proof -
  define D where "D = (defaultSettings :: 'w settings)"
  define b0 where "b0 = newBreaker D t0"
  define b where "b = calls D (Some e) ts b0"
  have r: "readyToTrip D = Some defaultReadyToTrip"
    by (simp add: D_def defaultSettings_def)
  have cnt: "defaultReadyToTrip (((onFailure \<circ> onRequest) ^^ length ts) zero_counts)
          \<longleftrightarrow> 5 < length ts"
    using assms(3) by (intro defaultReadyToTrip_after_failures) (simp_all add: zero_counts_def)
  have e0: "expiry b0 = t0 + 5 * Second"
    by (simp add: b0_def D_def newBreaker_def defaultSettings_def)
  have "state b0 = StateClosed"
    by (simp add: b0_def newBreaker_def)
  moreover have "consecutiveFailures (counters b0) = of_nat 0"
    by (simp add: b0_def newBreaker_def zero_counts_def)
  moreover have "(0::nat) \<le> 5" by simp
  moreover have "\<forall>t\<in>set ts. t0 \<le> t \<and> t \<le> expiry b0"
    using assms(1) by (simp add: e0)
  moreover have "expiry b0 < t0 + 10 * Second"
    by (simp add: e0 Second_def)
  ultimately have g: "state (calls (defaultSettings :: 'w settings) (Some e) ts b0)
           = (if 5 < 0 + length ts then StateOpen else StateClosed)
         \<and> (if 5 < 0 + length ts
             then t0 + 10 * Second \<le> expiry (calls (defaultSettings :: 'w settings) (Some e) ts b0)
             else expiry (calls (defaultSettings :: 'w settings) (Some e) ts b0) = expiry b0)"
    by (rule calls_failure_Closed)
  have st: "state b = (if 5 < length ts then StateOpen else StateClosed)"
    using g by (simp add: b_def D_def)
  have ex: "if 5 < length ts then t0 + 10 * Second \<le> expiry b else expiry b = expiry b0"
    using g by (simp add: b_def D_def)
  have adm: "snd (Admit D now b) \<longleftrightarrow> length ts \<le> 5"
    and st': "state (fst (Admit D now b)) = (if 5 < length ts then StateOpen else StateClosed)"
  proof -
    show "snd (Admit D now b) \<longleftrightarrow> length ts \<le> 5"
    proof (cases "5 < length ts")
      case True
      then have "state b = StateOpen" "now < expiry b"
        using st ex assms(2) by (auto simp: Second_def)
      then show ?thesis
        using True
        by (simp add: Admit_def closedReset_def StateOpen_def StateClosed_def Let_def)
    next
      case False
      then have "state b = StateClosed"
        using st by simp
      then show ?thesis
        using False by (simp add: Admit_def closedReset_def Let_def)
    qed
    show "state (fst (Admit D now b)) = (if 5 < length ts then StateOpen else StateClosed)"
    proof (cases "5 < length ts")
      case True
      then have "state b = StateOpen" "now < expiry b"
        using st ex assms(2) by (auto simp: Second_def)
      then show ?thesis
        using True
        by (simp add: Admit_def closedReset_def StateOpen_def StateClosed_def Let_def)
    next
      case False
      then have "state b = StateClosed"
        using st by simp
      then show ?thesis
        using False by (simp add: Admit_def closedReset_def Let_def)
    qed
  qed
  show ?thesis
    using r cnt st adm st' unfolding b_def b0_def D_def by simp
qed

text \<open>
  Failed calls at the times 1 to 6 on a breaker made at time 0, then an Admit at time 7:
  the trip condition holds of the counters, the state reads Open and the Admit rejects.
  After the first five of these calls the state reads Closed and the Admit is admitted.
\<close>

theorem default_trip_after_more_than_five_witness:
  "defaultReadyToTrip (((onFailure \<circ> onRequest) ^^ 6) zero_counts)
   \<and> state (calls (defaultSettings :: unit settings) (Some ''down'') [1, 2, 3, 4, 5, 6]
        (newBreaker (defaultSettings :: unit settings) 0)) = StateOpen
   \<and> \<not> snd (Admit (defaultSettings :: unit settings) 7
        (calls (defaultSettings :: unit settings) (Some ''down'') [1, 2, 3, 4, 5, 6]
          (newBreaker (defaultSettings :: unit settings) 0)))
   \<and> state (fst (Admit (defaultSettings :: unit settings) 7
        (calls (defaultSettings :: unit settings) (Some ''down'') [1, 2, 3, 4, 5, 6]
          (newBreaker (defaultSettings :: unit settings) 0)))) = StateOpen
   \<and> state (calls (defaultSettings :: unit settings) (Some ''down'') [1, 2, 3, 4, 5]
        (newBreaker (defaultSettings :: unit settings) 0)) = StateClosed
   \<and> snd (Admit (defaultSettings :: unit settings) 7
        (calls (defaultSettings :: unit settings) (Some ''down'') [1, 2, 3, 4, 5]
          (newBreaker (defaultSettings :: unit settings) 0)))"
proof -
  have w6: "\<forall>t\<in>set [1, 2, 3, 4, 5, 6 :: int]. 0 \<le> t \<and> t \<le> 0 + 5 * Second"
    and w5: "\<forall>t\<in>set [1, 2, 3, 4, 5 :: int]. 0 \<le> t \<and> t \<le> 0 + 5 * Second"
    and n: "(0::int) \<le> 7 \<and> 7 \<le> 0 + 5 * Second"
    by (simp_all add: Second_def)
  have l6: "length [1, 2, 3, 4, 5, 6 :: int] < 2 ^ 32"
    and l5: "length [1, 2, 3, 4, 5 :: int] < 2 ^ 32"
    by simp_all
  show ?thesis
    using default_trip_after_more_than_five [where 'w = unit, OF w6 n l6, of "''down''"]
      default_trip_after_more_than_five [where 'w = unit, OF w5 n l5, of "''down''"]
    by (simp add: eval_nat_numeral)
qed

text \<open>
  Five failures in a row on zero counters: \<^verbatim>\<open>consecutiveFailures\<close> is 5, and the default
  \<^verbatim>\<open>readyToTrip\<close> is false there.
\<close>

theorem default_not_tripped_after_five:
  "readyToTrip (defaultSettings :: unit settings) = Some defaultReadyToTrip
   \<and> consecutiveFailures (((onFailure \<circ> onRequest) ^^ 5) zero_counts) = 5
   \<and> \<not> defaultReadyToTrip (((onFailure \<circ> onRequest) ^^ 5) zero_counts)"
  by (simp add: defaultSettings_def defaultReadyToTrip_def zero_counts_def
      onFailure_def onRequest_def eval_nat_numeral)

text \<open>
  C7. Each of the six option constructors, with any argument, gives an option that is
  idempotent (applied twice it yields the settings it yields applied once) and that
  changes one field only: it sets its own field to the argument and leaves the other
  five fields as they were.
\<close>

theorem options_idempotent_one_field:
  "apply_option (WithMaxHalfOpenRequests m) (apply_option (WithMaxHalfOpenRequests m) s)
     = apply_option (WithMaxHalfOpenRequests m) s
   \<and> maxHalfOpenRequests (apply_option (WithMaxHalfOpenRequests m) s) = m
   \<and> closedResetInterval (apply_option (WithMaxHalfOpenRequests m) s) = closedResetInterval s
   \<and> openTimeOut (apply_option (WithMaxHalfOpenRequests m) s) = openTimeOut s
   \<and> readyToTrip (apply_option (WithMaxHalfOpenRequests m) s) = readyToTrip s
   \<and> onStateChange (apply_option (WithMaxHalfOpenRequests m) s) = onStateChange s
   \<and> isSuccessful (apply_option (WithMaxHalfOpenRequests m) s) = isSuccessful s
   \<and> apply_option (WithClosedResetInterval d) (apply_option (WithClosedResetInterval d) s)
     = apply_option (WithClosedResetInterval d) s
   \<and> maxHalfOpenRequests (apply_option (WithClosedResetInterval d) s) = maxHalfOpenRequests s
   \<and> closedResetInterval (apply_option (WithClosedResetInterval d) s) = d
   \<and> openTimeOut (apply_option (WithClosedResetInterval d) s) = openTimeOut s
   \<and> readyToTrip (apply_option (WithClosedResetInterval d) s) = readyToTrip s
   \<and> onStateChange (apply_option (WithClosedResetInterval d) s) = onStateChange s
   \<and> isSuccessful (apply_option (WithClosedResetInterval d) s) = isSuccessful s
   \<and> apply_option (WithOpenTimeOut t) (apply_option (WithOpenTimeOut t) s)
     = apply_option (WithOpenTimeOut t) s
   \<and> maxHalfOpenRequests (apply_option (WithOpenTimeOut t) s) = maxHalfOpenRequests s
   \<and> closedResetInterval (apply_option (WithOpenTimeOut t) s) = closedResetInterval s
   \<and> openTimeOut (apply_option (WithOpenTimeOut t) s) = t
   \<and> readyToTrip (apply_option (WithOpenTimeOut t) s) = readyToTrip s
   \<and> onStateChange (apply_option (WithOpenTimeOut t) s) = onStateChange s
   \<and> isSuccessful (apply_option (WithOpenTimeOut t) s) = isSuccessful s
   \<and> apply_option (WithReadyToTrip f) (apply_option (WithReadyToTrip f) s)
     = apply_option (WithReadyToTrip f) s
   \<and> maxHalfOpenRequests (apply_option (WithReadyToTrip f) s) = maxHalfOpenRequests s
   \<and> closedResetInterval (apply_option (WithReadyToTrip f) s) = closedResetInterval s
   \<and> openTimeOut (apply_option (WithReadyToTrip f) s) = openTimeOut s
   \<and> readyToTrip (apply_option (WithReadyToTrip f) s) = f
   \<and> onStateChange (apply_option (WithReadyToTrip f) s) = onStateChange s
   \<and> isSuccessful (apply_option (WithReadyToTrip f) s) = isSuccessful s
   \<and> apply_option (WithOnStateChange g) (apply_option (WithOnStateChange g) s)
     = apply_option (WithOnStateChange g) s
   \<and> maxHalfOpenRequests (apply_option (WithOnStateChange g) s) = maxHalfOpenRequests s
   \<and> closedResetInterval (apply_option (WithOnStateChange g) s) = closedResetInterval s
   \<and> openTimeOut (apply_option (WithOnStateChange g) s) = openTimeOut s
   \<and> readyToTrip (apply_option (WithOnStateChange g) s) = readyToTrip s
   \<and> onStateChange (apply_option (WithOnStateChange g) s) = g
   \<and> isSuccessful (apply_option (WithOnStateChange g) s) = isSuccessful s
   \<and> apply_option (WithIsSuccessful h) (apply_option (WithIsSuccessful h) s)
     = apply_option (WithIsSuccessful h) s
   \<and> maxHalfOpenRequests (apply_option (WithIsSuccessful h) s) = maxHalfOpenRequests s
   \<and> closedResetInterval (apply_option (WithIsSuccessful h) s) = closedResetInterval s
   \<and> openTimeOut (apply_option (WithIsSuccessful h) s) = openTimeOut s
   \<and> readyToTrip (apply_option (WithIsSuccessful h) s) = readyToTrip s
   \<and> onStateChange (apply_option (WithIsSuccessful h) s) = onStateChange s
   \<and> isSuccessful (apply_option (WithIsSuccessful h) s) = h"
  by (simp add: apply_option_def WithMaxHalfOpenRequests_def WithClosedResetInterval_def
      WithOpenTimeOut_def WithReadyToTrip_def WithOnStateChange_def WithIsSuccessful_def)

subsection \<open>Validation\<close>

text \<open>
  Both fields reach \<^verbatim>\<open>validation.Field\<close> by value, so \<^verbatim>\<open>ValidateStruct\<close> stops at the
  first of them with \<^verbatim>\<open>ErrFieldPointer(0)\<close>, whatever the settings hold.
\<close>

lemma validate_ErrFieldPointer: "validate s = Some (ErrFieldPointer 0)"
  by (simp add: validate_def ValidateStruct_def Field_rules_def)

text \<open>
  Had the two fields been passed by address, the rule \<^verbatim>\<open>Min(1)\<close> would be run on each:
  the result is \<^verbatim>\<open>nil\<close> exactly when each duration is at least 1 or is zero.
\<close>

lemma ValidateStruct_by_address:
  "ValidateStruct
     [Field_rules (FieldPointer ''closedResetInterval'' a) [MinRule 1],
      Field_rules (FieldPointer ''openTimeOut'' b) [MinRule 1]] = None
   \<longleftrightarrow> (a = 0 \<or> 1 \<le> a) \<and> (b = 0 \<or> 1 \<le> b)"
  by (auto simp add: ValidateStruct_def Field_rules_def IsEmpty_def)

text \<open>
  C2, at the default settings. Both durations are strictly positive (5 and 10 seconds),
  and \<^verbatim>\<open>validate\<close> returns an error all the same: the internal error
  \<^verbatim>\<open>ErrFieldPointer(0)\<close> of the validation package, not \<^verbatim>\<open>nil\<close>.
\<close>

theorem validate_defaultSettings_error:
  "0 < closedResetInterval (defaultSettings :: 'w settings)
   \<and> 0 < openTimeOut (defaultSettings :: 'w settings)
   \<and> validate (defaultSettings :: 'w settings) = Some (ErrFieldPointer 0)"
  by (simp add: validate_ErrFieldPointer defaultSettings_def Second_def)

end
